theory Spec2Isabelle
  imports Complex_Main "HOL-Library.Stream"
begin

section \<open>Battery cell simulator: session state, simulation tick and task ledger\<close>

text \<open>
  A shallow embedding of \<^verbatim>\<open>battery_streamlit_app.py\<close>: the helper functions
  \<^verbatim>\<open>generate_cell_data\<close> and \<^verbatim>\<open>simulate_real_time_data\<close>, and the button
  handlers of the pages that change \<^verbatim>\<open>st.session_state\<close>.

  Conventions of the model:
  \<^item> a Python float is a \<^typ>\<open>real\<close>: arithmetic is exact, so binary rounding of
    \<^verbatim>\<open>+\<close> and \<^verbatim>\<open>*\<close> is not modelled; \<^verbatim>\<open>round(x, n)\<close> rounds the exact value
    to \<open>n\<close> decimals, ties to even, as Python does on the exact value of a float;
  \<^item> a Python \<^verbatim>\<open>dict\<close> is an association list in insertion order, its keys distinct;
  \<^item> the module-level random generator is a stream of the values its calls return:
    a \<^typ>\<open>real stream\<close> of the results of \<^verbatim>\<open>random.random()\<close> (each in \<open>[0, 1)\<close>) for
    \<^verbatim>\<open>random.uniform\<close>, an \<^typ>\<open>int stream\<close> of the results of
    \<^verbatim>\<open>random.randint(1, 5)\<close> (each in \<open>{1..5}\<close>);
  \<^item> \<^verbatim>\<open>datetime.now()\<close> is an input of the tick: a \<^verbatim>\<open>datetime\<close> is an \<^typ>\<open>int\<close>, the
    microseconds since an epoch, and the library's upper limit (year 9999) is left out;
  \<^item> a subscript with a missing key raises \<^verbatim>\<open>KeyError\<close>: the result is a sum type;
  \<^item> a button handler is a function on the session state; the "Real-time Analysis"
    page, which decides whether the task progress loop runs, is modelled as one script
    run (\<open>analysis_page\<close>).
\<close>

subsection \<open>Numbers and strings of the Python runtime\<close>

definition round_half_even :: "real \<Rightarrow> int" where
  "round_half_even y =
     (let f = \<lfloor>y\<rfloor>; d = y - of_int f
      in if d < 1 / 2 then f else if 1 / 2 < d then f + 1 else if even f then f else f + 1)"

text \<open>\<^verbatim>\<open>round(x, ndigits)\<close> on a float, for \<open>ndigits \<ge> 0\<close>.\<close>

definition py_round :: "real \<Rightarrow> nat \<Rightarrow> real" where
  "py_round x ndigits = of_int (round_half_even (x * 10 ^ ndigits)) / 10 ^ ndigits"

text \<open>\<^verbatim>\<open>random.uniform(a, b)\<close> is \<^verbatim>\<open>a + (b - a) * self.random()\<close>.\<close>

definition uniform :: "real \<Rightarrow> real \<Rightarrow> real stream \<Rightarrow> real \<times> real stream" where
  "uniform a b g = (a + (b - a) * shd g, stl g)"

text \<open>\<^verbatim>\<open>random.randint(a, b)\<close>: the next integer the generator returns.\<close>

definition randint :: "int \<Rightarrow> int \<Rightarrow> int stream \<Rightarrow> int \<times> int stream" where
  "randint a b g = (shd g, stl g)"

definition digit_char :: "nat \<Rightarrow> char" where
  "digit_char d = char_of (48 + d)"

text \<open>The decimal digits of a non-negative integer, as an f-string prints it.\<close>

fun str_nat :: "nat \<Rightarrow> string" where
  "str_nat n = (if n < 10 then [digit_char n] else str_nat (n div 10) @ [digit_char (n mod 10)])"

declare str_nat.simps [simp del]

text \<open>\<^verbatim>\<open>str.lower()\<close> on ASCII text.\<close>

definition lower_char :: "char \<Rightarrow> char" where
  "lower_char c = (let n = (of_char c :: nat) in if 65 \<le> n \<and> n \<le> 90 then char_of (n + 32) else c)"

definition lower :: "string \<Rightarrow> string" where
  "lower s = map lower_char s"

datatype py_error = KeyError string

text \<open>\<^verbatim>\<open>d[k] = v\<close>: a present key keeps its place, a new key goes last.\<close>

fun dict_set :: "'k \<Rightarrow> 'v \<Rightarrow> ('k \<times> 'v) list \<Rightarrow> ('k \<times> 'v) list" where
  "dict_set k v [] = [(k, v)]"
| "dict_set k v ((k', v') # d) = (if k' = k then (k, v) # d else (k', v') # dict_set k v d)"

text \<open>\<^verbatim>\<open>timedelta(seconds=n)\<close>, in microseconds.\<close>

definition timedelta_seconds :: "int \<Rightarrow> int" where
  "timedelta_seconds n = n * 1000000"

subsection \<open>The session state\<close>

record cell =
  cell_id :: string
  cell_type :: string
  voltage :: real
  current :: real
  temp :: real
  capacity :: real
  min_voltage :: real
  max_voltage :: real
  cell_status :: string

text \<open>
  A task is the dict the form builds: \<^verbatim>\<open>task_type\<close> and the fields of its kind
  (\<open>CC_CV\<close>: cc_cp, cv_voltage, current, capacity, time_seconds; \<open>IDLE\<close>: time_seconds;
  \<open>CC_CD\<close>: cc_cp, voltage, capacity, time_seconds), then \<^verbatim>\<open>status\<close> and \<^verbatim>\<open>progress\<close>.
\<close>

datatype task_params =
    CC_CV string real real real int
  | IDLE int
  | CC_CD string real real int

datatype task_status = Pending | Running | Completed

record task =
  params :: task_params
  status :: task_status
  progress :: int

record sample =
  timestamp :: int
  sample_cell_id :: string
  sample_voltage :: real
  sample_current :: real
  sample_temp :: real
  sample_capacity :: real

record session_state =
  cells_data :: "(string \<times> cell) list"
  tasks_data :: "(string \<times> task) list"
  simulation_running :: bool
  historical_data :: "sample list"
  current_time :: int

text \<open>\<^verbatim>\<open>initialize_session_state\<close> on a fresh session.\<close>

definition initialize_session_state :: session_state where
  "initialize_session_state =
     \<lparr>cells_data = [], tasks_data = [], simulation_running = False,
      historical_data = [], current_time = 0\<rparr>"

subsection \<open>Cells: creation and the simulation tick\<close>

definition generate_cell_data :: "string \<Rightarrow> nat \<Rightarrow> real stream \<Rightarrow> cell \<times> real stream" where
  "generate_cell_data ctype cid g =
     (let v = (if lower ctype = ''lfp'' then 32 / 10 else 36 / 10);
          vmin = (if lower ctype = ''lfp'' then 28 / 10 else 32 / 10);
          vmax = (if lower ctype = ''lfp'' then 36 / 10 else 4);
          (u1, g1) = uniform (1 / 10) 2 g;
          cur = py_round u1 2;
          (u2, g2) = uniform 25 40 g1;
          tmp = py_round u2 1;
          cap = py_round (v * cur) 2
      in (\<lparr>cell_id = ''cell_'' @ str_nat cid @ ''_'' @ ctype, cell_type = ctype,
           voltage = v, current = cur, temp = tmp, capacity = cap,
           min_voltage = vmin, max_voltage = vmax, cell_status = ''Active''\<rparr>, g2))"

text \<open>The loop of the "Add Cells" handler over \<^verbatim>\<open>range(cell_count)\<close>.\<close>

fun add_cells ::
  "string \<Rightarrow> nat \<Rightarrow> nat list \<Rightarrow> real stream \<Rightarrow> (string \<times> cell) list
     \<Rightarrow> (string \<times> cell) list \<times> real stream" where
  "add_cells ctype start_id [] g d = (d, g)"
| "add_cells ctype start_id (i # is) g d =
     (let key = ''cell_'' @ str_nat (start_id + i) @ ''_'' @ lower ctype;
          (c, g') = generate_cell_data (lower ctype) (start_id + i) g
      in add_cells ctype start_id is g' (dict_set key c d))"

definition create_cells ::
  "string \<Rightarrow> nat \<Rightarrow> real stream \<Rightarrow> session_state \<Rightarrow> session_state \<times> real stream" where
  "create_cells ctype cell_count g st =
     (let start_id = length (cells_data st) + 1;
          (d, g') = add_cells ctype start_id [0..<cell_count] g (cells_data st)
      in (st\<lparr>cells_data := d\<rparr>, g'))"

text \<open>The body of the first loop of \<^verbatim>\<open>simulate_real_time_data\<close>, for one cell.\<close>

definition update_cell :: "real \<Rightarrow> real \<Rightarrow> real \<Rightarrow> cell \<Rightarrow> cell" where
  "update_cell voltage_change temp_change current_change cell_data =
     (let new_voltage = max (min_voltage cell_data)
                            (min (max_voltage cell_data) (voltage cell_data + voltage_change));
          new_temp = max 20 (min 50 (temp cell_data + temp_change));
          new_current = max 0 (current cell_data + current_change)
      in cell_data\<lparr>voltage := py_round new_voltage 2,
                    temp := py_round new_temp 1,
                    current := py_round new_current 2,
                    capacity := py_round (new_voltage * new_current) 2\<rparr>)"

fun update_cells ::
  "real stream \<Rightarrow> (string \<times> cell) list \<Rightarrow> (string \<times> cell) list \<times> real stream" where
  "update_cells g [] = ([], g)"
| "update_cells g ((cid, cell_data) # rest) =
     (let (voltage_change, g1) = uniform (- (5 / 100)) (5 / 100) g;
          (temp_change, g2) = uniform (- 1) 1 g1;
          (current_change, g3) = uniform (- (1 / 10)) (1 / 10) g2;
          (rest', g') = update_cells g3 rest
      in ((cid, update_cell voltage_change temp_change current_change cell_data) # rest', g'))"

definition make_sample :: "int \<Rightarrow> string \<times> cell \<Rightarrow> sample" where
  "make_sample ts kc =
     \<lparr>timestamp = ts, sample_cell_id = fst kc, sample_voltage = voltage (snd kc),
      sample_current = current (snd kc), sample_temp = temp (snd kc),
      sample_capacity = capacity (snd kc)\<rparr>"

text \<open>The tick. \<open>now\<close> is what \<^verbatim>\<open>datetime.now()\<close> returns when the tick runs.\<close>

definition simulate_real_time_data ::
  "int \<Rightarrow> real stream \<Rightarrow> session_state \<Rightarrow> session_state \<times> real stream" where
  "simulate_real_time_data now g st =
     (if cells_data st \<noteq> [] then
        let (cells', g') = update_cells g (cells_data st);
            ts = now + timedelta_seconds (current_time st)
        in (st\<lparr>cells_data := cells',
                historical_data := historical_data st @ map (make_sample ts) cells',
                current_time := current_time st + 1\<rparr>, g')
      else (st, g))"

text \<open>A sequence of ticks, one per clock reading of the list.\<close>

fun ticks :: "int list \<Rightarrow> real stream \<Rightarrow> session_state \<Rightarrow> session_state \<times> real stream" where
  "ticks [] g st = (st, g)"
| "ticks (now # nows) g st =
     (let (st', g') = simulate_real_time_data now g st in ticks nows g' st')"

text \<open>The buttons "Clear All Cells" (Setup Cells page) and "Clear History" (analysis page).\<close>

definition clear_all_cells :: "session_state \<Rightarrow> session_state" where
  "clear_all_cells st = st\<lparr>cells_data := [], historical_data := []\<rparr>"

definition clear_history :: "session_state \<Rightarrow> session_state" where
  "clear_history st = st\<lparr>historical_data := [], current_time := 0\<rparr>"

subsection \<open>Tasks: the ledger and the progress loop\<close>

definition add_task :: "task_params \<Rightarrow> session_state \<Rightarrow> session_state" where
  "add_task p st =
     (let task_id = ''task_'' @ str_nat (length (tasks_data st) + 1);
          task_data = \<lparr>params = p, status = Pending, progress = 0\<rparr>
      in st\<lparr>tasks_data := dict_set task_id task_data (tasks_data st)\<rparr>)"

definition start_task :: "string \<Rightarrow> session_state \<Rightarrow> py_error + session_state" where
  "start_task task_id st =
     (if task_id \<in> fst ` set (tasks_data st) then
        Inr (st\<lparr>tasks_data :=
               map (\<lambda>(k, t). if k = task_id then (k, t\<lparr>status := Running\<rparr>) else (k, t))
                 (tasks_data st)\<rparr>)
      else Inl (KeyError task_id))"

definition delete_task :: "string \<Rightarrow> session_state \<Rightarrow> py_error + session_state" where
  "delete_task task_id st =
     (if task_id \<in> fst ` set (tasks_data st) then
        Inr (st\<lparr>tasks_data := filter (\<lambda>(k, t). k \<noteq> task_id) (tasks_data st)\<rparr>)
      else Inl (KeyError task_id))"

text \<open>The body of the task progress loop, for one task.\<close>

definition advance_task :: "int \<Rightarrow> task \<Rightarrow> task" where
  "advance_task r task_data =
     (let progress' = min 100 (progress task_data + r);
          t = task_data\<lparr>progress := progress'\<rparr>
      in if 100 \<le> progress' then t\<lparr>status := Completed\<rparr> else t)"

fun progress_loop ::
  "int stream \<Rightarrow> (string \<times> task) list \<Rightarrow> (string \<times> task) list \<times> int stream" where
  "progress_loop g [] = ([], g)"
| "progress_loop g ((task_id, task_data) # rest) =
     (if status task_data = Running then
        let (r, g1) = randint 1 5 g;
            (rest', g') = progress_loop g1 rest
        in ((task_id, advance_task r task_data) # rest', g')
      else
        let (rest', g') = progress_loop g rest
        in ((task_id, task_data) # rest', g'))"

text \<open>
  The task progress block of the analysis page (\<^verbatim>\<open>if st.session_state.tasks_data:\<close> and
  its loop). Whether a run of the page reaches it is decided by \<open>analysis_page\<close> below.
\<close>

definition advance_progress ::
  "int stream \<Rightarrow> session_state \<Rightarrow> session_state \<times> int stream" where
  "advance_progress g st =
     (if tasks_data st \<noteq> [] then
        let (tasks', g') = progress_loop g (tasks_data st)
        in (st\<lparr>tasks_data := tasks'\<rparr>, g')
      else (st, g))"

text \<open>\<open>n\<close> successive calls of the progress loop.\<close>

fun advance_n :: "nat \<Rightarrow> int stream \<Rightarrow> session_state \<Rightarrow> session_state \<times> int stream" where
  "advance_n 0 g st = (st, g)"
| "advance_n (Suc n) g st =
     (let (st', g') = advance_progress g st in advance_n n g' st')"

text \<open>
  One script run of the "Real-time Analysis" page, with the button pressed in it (at
  most one per run). Without a cell the page only shows a warning. \<^verbatim>\<open>st.rerun()\<close> ends
  the run where it is called, so the progress loop is reached only in a run that has a
  cell, has not pressed "Update Data" and does not find \<^verbatim>\<open>simulation_running\<close> set.
\<close>

datatype button = No_Button | Start_Simulation | Pause_Simulation | Update_Data | Clear_History

definition analysis_page ::
  "button \<Rightarrow> int \<Rightarrow> real stream \<Rightarrow> int stream \<Rightarrow> session_state
     \<Rightarrow> session_state \<times> real stream \<times> int stream" where
  "analysis_page b now gu gi st =
     (if cells_data st = [] then (st, gu, gi)
      else
        let st1 = (if b = Start_Simulation then st\<lparr>simulation_running := True\<rparr> else st);
            st2 = (if b = Pause_Simulation then st1\<lparr>simulation_running := False\<rparr> else st1)
        in if b = Update_Data then
             (let (st3, gu') = simulate_real_time_data now gu st2 in (st3, gu', gi))
           else
             let st3 = (if b = Clear_History then clear_history st2 else st2)
             in if simulation_running st3 then
                  (let (st4, gu') = simulate_real_time_data now gu st3 in (st4, gu', gi))
                else
                  (let (st4, gi') = advance_progress gi st3 in (st4, gu, gi')))"

text \<open>Successive runs of the page, each with its button and its clock reading.\<close>

fun analysis_runs ::
  "(button \<times> int) list \<Rightarrow> real stream \<Rightarrow> int stream \<Rightarrow> session_state
     \<Rightarrow> session_state \<times> real stream \<times> int stream" where
  "analysis_runs [] gu gi st = (st, gu, gi)"
| "analysis_runs ((b, now) # evs) gu gi st =
     (let (st', gu', gi') = analysis_page b now gu gi st in analysis_runs evs gu' gi' st')"

subsection \<open>Vocabulary of the properties\<close>

text \<open>
  The three changes the tick draws for the \<open>i\<close>-th cell of the registry (voltage,
  temperature, current): the draws \<open>3 i\<close>, \<open>3 i + 1\<close> and \<open>3 i + 2\<close> of the generator.
\<close>

definition cell_draws :: "real stream \<Rightarrow> nat \<Rightarrow> real \<times> real \<times> real" where
  "cell_draws g i =
     (fst (uniform (- (5 / 100)) (5 / 100) (sdrop (3 * i) g)),
      fst (uniform (- 1) 1 (sdrop (3 * i + 1) g)),
      fst (uniform (- (1 / 10)) (1 / 10) (sdrop (3 * i + 2) g)))"

text \<open>
  The voltage bounds of a cell are well formed: ordered, and values of two decimals
  (fixed points of \<^verbatim>\<open>round(x, 2)\<close>), as the bounds \<^verbatim>\<open>generate_cell_data\<close> sets are.
\<close>

definition bounds_ok :: "cell \<Rightarrow> bool" where
  "bounds_ok c \<longleftrightarrow>
     min_voltage c \<le> max_voltage c \<and>
     py_round (min_voltage c) 2 = min_voltage c \<and>
     py_round (max_voltage c) 2 = max_voltage c"

definition in_range :: "cell \<Rightarrow> bool" where
  "in_range c \<longleftrightarrow>
     min_voltage c \<le> voltage c \<and> voltage c \<le> max_voltage c \<and>
     20 \<le> temp c \<and> temp c \<le> 50 \<and> 0 \<le> current c"

text \<open>
  A session with one LFP cell, made by the "Add Cells" handler on a fresh session with
  the draws \<open>9/19\<close> and \<open>0\<close>: current \<open>round(0.1 + 1.9 * 9/19, 2) = 1.0\<close>,
  temperature \<open>round(25 + 15 * 0, 1) = 25.0\<close>.
\<close>

definition one_lfp_cell :: session_state where
  "one_lfp_cell =
     fst (create_cells ''LFP'' 1 (9 / 19 ## 0 ## sconst 0) initialize_session_state)"

text \<open>
  That session after one tick whose draws are \<open>0.54\<close>, \<open>0.5\<close> and \<open>0.52\<close>: the changes
  are \<open>-0.05 + 0.1 * 0.54 = 0.004\<close> (voltage), \<open>-1 + 2 * 0.5 = 0\<close> (temperature) and
  \<open>-0.1 + 0.2 * 0.52 = 0.004\<close> (current).
\<close>

definition after_small_rise :: session_state where
  "after_small_rise =
     fst (simulate_real_time_data 0 (54 / 100 ## 1 / 2 ## 52 / 100 ## sconst 0) one_lfp_cell)"

text \<open>What a tick leaves alone in a registry entry: its key and its voltage bounds.\<close>

definition cell_bounds :: "string \<times> cell \<Rightarrow> string \<times> real \<times> real" where
  "cell_bounds kc = (fst kc, min_voltage (snd kc), max_voltage (snd kc))"

text \<open>
  Task scenarios. A fresh session after "Add Task" (IDLE, 1800 s) and "Start".
\<close>

definition idle_started :: session_state where
  "idle_started =
     initialize_session_state
       \<lparr>tasks_data := [(''task_1'', \<lparr>params = IDLE 1800, status = Running, progress = 0\<rparr>)]\<rparr>"

text \<open>That session after 20 runs of the progress loop that each draw 5.\<close>

definition idle_completed :: session_state where
  "idle_completed = fst (advance_n 20 (sconst 5) idle_started)"

text \<open>
  A fresh session after "Add Task" twice (IDLE, 1800 s) and "Delete" of \<open>task_1\<close>.
\<close>

definition one_left :: session_state where
  "one_left =
     initialize_session_state
       \<lparr>tasks_data := [(''task_2'', \<lparr>params = IDLE 1800, status = Pending, progress = 0\<rparr>)]\<rparr>"

text \<open>
  The session \<open>one_lfp_cell\<close> after "Add Task" (IDLE, 1800 s) and "Start": one cell, the
  simulation not running, one started task.
\<close>

definition cell_and_started_task :: session_state where
  "cell_and_started_task =
     one_lfp_cell
       \<lparr>tasks_data := [(''task_1'', \<lparr>params = IDLE 1800, status = Running, progress = 0\<rparr>)]\<rparr>"

text \<open>The session \<open>after_small_rise\<close> after "Add Task" (IDLE, 1800 s).\<close>

definition busy_session :: session_state where
  "busy_session = add_task (IDLE 1800) after_small_rise"

section \<open>Properties\<close>

subsection \<open>Rounding\<close>

lemma round_half_even_of_int: "round_half_even (of_int k) = k"
  by (simp add: round_half_even_def)

lemma round_half_even_bounds:
  "\<lfloor>y\<rfloor> \<le> round_half_even y \<and> round_half_even y \<le> \<lfloor>y\<rfloor> + 1"
  by (simp add: round_half_even_def Let_def)

lemma round_half_even_mono:
  assumes "x \<le> y"
  shows "round_half_even x \<le> round_half_even y"
proof (cases "\<lfloor>x\<rfloor> = \<lfloor>y\<rfloor>")
  case True
  with assms show ?thesis
    by (auto simp: round_half_even_def Let_def)
next
  case False
  with assms have "\<lfloor>x\<rfloor> + 1 \<le> \<lfloor>y\<rfloor>"
    using floor_mono [of x y] by linarith
  with round_half_even_bounds [of x] round_half_even_bounds [of y] show ?thesis
    by linarith
qed

lemma py_round_mono: "x \<le> y \<Longrightarrow> py_round x n \<le> py_round y n"
proof -
  assume "x \<le> y"
  then have "x * 10 ^ n \<le> y * 10 ^ n" by simp
  then have "round_half_even (x * 10 ^ n) \<le> round_half_even (y * 10 ^ n)"
    by (rule round_half_even_mono)
  then show ?thesis
    by (simp add: py_round_def divide_right_mono)
qed

lemma py_round_of_int: "py_round (of_int k) n = of_int k"
proof -
  have "of_int k * (10::real) ^ n = of_int (k * 10 ^ n)" by simp
  then have "round_half_even (of_int k * 10 ^ n) = k * 10 ^ n"
    by (simp only: round_half_even_of_int)
  then show ?thesis by (simp add: py_round_def)
qed

lemma py_round_between:
  assumes "lo \<le> x" "x \<le> hi" "py_round lo n = lo" "py_round hi n = hi"
  shows "lo \<le> py_round x n \<and> py_round x n \<le> hi"
  using py_round_mono [OF assms(1), of n] py_round_mono [OF assms(2), of n] assms(3,4)
  by simp

lemma py_round_numeral: "py_round (numeral k) n = numeral k"
  using py_round_of_int [of "numeral k" n] by simp

lemma py_round_0: "py_round 0 n = 0"
  using py_round_of_int [of 0 n] by simp

subsection \<open>Strings and scenarios, evaluated\<close>

lemma lower_LFP: "lower ''LFP'' = ''lfp''"
  by code_simp

lemma lower_NMC: "lower ''NMC'' = ''nmc''"
  by code_simp

lemma lower_lfp: "lower ''lfp'' = ''lfp''"
  by code_simp

lemma lower_nmc: "lower ''nmc'' = ''nmc''"
  by code_simp

lemma str_nat_1: "str_nat 1 = ''1''"
  by code_simp

lemma str_nat_Suc_0: "str_nat (Suc 0) = ''1''"
  using str_nat_1 by simp

lemma str_nat_2: "str_nat 2 = ''2''"
  by code_simp

lemma str_nat_Suc_Suc_0: "str_nat (Suc (Suc 0)) = ''2''"
  using str_nat_2 by (simp add: numeral_2_eq_2)

lemma one_lfp_cell_value:
  "one_lfp_cell =
     \<lparr>cells_data = [(''cell_1_lfp'',
        \<lparr>cell_id = ''cell_1_lfp'', cell_type = ''lfp'', voltage = 32 / 10, current = 1,
         temp = 25, capacity = 32 / 10, min_voltage = 28 / 10, max_voltage = 36 / 10,
         cell_status = ''Active''\<rparr>)],
      tasks_data = [], simulation_running = False, historical_data = [], current_time = 0\<rparr>"
  by (simp add: one_lfp_cell_def create_cells_def generate_cell_data_def uniform_def
      initialize_session_state_def lower_LFP lower_lfp str_nat_Suc_0 py_round_def
      round_half_even_def Let_def)

subsection \<open>Dictionaries and loops\<close>

lemma dict_set_not_Nil: "dict_set k v d \<noteq> []"
  by (cases d) (auto split: if_splits)

lemma update_cells_length: "length (fst (update_cells g cs)) = length cs"
  by (induction cs arbitrary: g) (auto simp: uniform_def case_prod_beta)

lemma update_cells_keys: "map fst (fst (update_cells g cs)) = map fst cs"
  by (induction cs arbitrary: g) (auto simp: uniform_def case_prod_beta)

lemma cell_draws_Suc: "cell_draws (stl (stl (stl g))) j = cell_draws g (Suc j)"
proof -
  have "sdrop (3 * Suc j) g = sdrop (3 * j) (stl (stl (stl g)))"
    by (simp add: numeral_3_eq_3)
  moreover have "sdrop (3 * Suc j + 1) g = sdrop (3 * j + 1) (stl (stl (stl g)))"
    by (simp add: numeral_3_eq_3)
  moreover have "sdrop (3 * Suc j + 2) g = sdrop (3 * j + 2) (stl (stl (stl g)))"
    by (simp add: numeral_3_eq_3)
  ultimately show ?thesis
    unfolding cell_draws_def by simp
qed

lemma cell_draws_0:
  "cell_draws g 0 =
     (fst (uniform (- (5 / 100)) (5 / 100) g),
      fst (uniform (- 1) 1 (stl g)),
      fst (uniform (- (1 / 10)) (1 / 10) (stl (stl g))))"
  by (simp add: cell_draws_def numeral_2_eq_2)

lemma update_cells_nth:
  "i < length cs \<Longrightarrow>
   fst (update_cells g cs) ! i =
     (fst (cs ! i),
      (case cell_draws g i of (dv, dt, dc) \<Rightarrow> update_cell dv dt dc (snd (cs ! i))))"
proof (induction cs arbitrary: g i)
  case Nil
  then show ?case by simp
next
  case (Cons kc cs)
  obtain k c where kc: "kc = (k, c)" by (cases kc)
  show ?case
  proof (cases i)
    case 0
    then show ?thesis
      by (simp add: kc cell_draws_0 uniform_def case_prod_beta)
  next
    case (Suc j)
    with Cons.prems have j: "j < length cs" by simp
    from Cons.IH [OF j, of "stl (stl (stl g))"] show ?thesis
      by (simp add: kc Suc uniform_def case_prod_beta cell_draws_Suc)
  qed
qed

subsection \<open>The tick, unfolded\<close>

lemma tick_nonempty:
  "cells_data st \<noteq> [] \<Longrightarrow>
   fst (simulate_real_time_data now g st) =
     st\<lparr>cells_data := fst (update_cells g (cells_data st)),
        historical_data := historical_data st @
          map (make_sample (now + timedelta_seconds (current_time st)))
            (fst (update_cells g (cells_data st))),
        current_time := current_time st + 1\<rparr>"
  by (simp add: simulate_real_time_data_def case_prod_beta)

lemma tick_empty: "cells_data st = [] \<Longrightarrow> simulate_real_time_data now g st = (st, g)"
  by (simp add: simulate_real_time_data_def)

lemma tick_cells:
  "cells_data (fst (simulate_real_time_data now g st)) = fst (update_cells g (cells_data st))"
  by (cases "cells_data st = []") (simp_all add: tick_nonempty tick_empty)

subsection \<open>The tick counter\<close>

text \<open>
  C5 (as amended). A tick on a non-empty registry adds exactly 1 to the tick counter;
  a tick on an empty registry changes nothing, the counter included, since the whole
  body of \<^verbatim>\<open>simulate_real_time_data\<close> is under \<^verbatim>\<open>if st.session_state.cells_data\<close>.
\<close>

theorem tick_counter_step:
  "(cells_data st \<noteq> [] \<longrightarrow>
      current_time (fst (simulate_real_time_data now g st)) = current_time st + 1) \<and>
   (cells_data st = [] \<longrightarrow> simulate_real_time_data now g st = (st, g))"
  by (simp add: simulate_real_time_data_def case_prod_beta)

theorem tick_counter_step_witness:
  "(cells_data one_lfp_cell \<noteq> [] \<and>
    current_time (fst (simulate_real_time_data 0 (sconst 0) one_lfp_cell))
      = current_time one_lfp_cell + 1) \<and>
   (cells_data initialize_session_state = [] \<and>
    simulate_real_time_data 0 (sconst 0) initialize_session_state
      = (initialize_session_state, sconst 0))"
  using tick_counter_step [of one_lfp_cell 0 "sconst 0"]
    tick_counter_step [of initialize_session_state 0 "sconst 0"]
  by (simp add: one_lfp_cell_value initialize_session_state_def)

text \<open>
  C5 as stated fails on the fresh session, whose registry has no cell: the tick leaves
  the counter at 0.
\<close>

theorem tick_counter_empty_registry_counterexample:
  "cells_data initialize_session_state = [] \<and>
   current_time (fst (simulate_real_time_data 0 (sconst 0) initialize_session_state))
     \<noteq> current_time initialize_session_state + 1"
  by (simp add: simulate_real_time_data_def initialize_session_state_def)

subsection \<open>History samples\<close>

text \<open>
  C4 (as amended). A tick on a non-empty registry appends one sample per cell to the
  history, in registry order and with the values the tick has just stored, and the
  timestamp of each of them is the wall-clock time at the moment of the tick plus the
  tick counter (before the tick) times one second.
\<close>

theorem tick_appends_samples:
  assumes "cells_data st \<noteq> []"
  shows "historical_data (fst (simulate_real_time_data now g st)) =
           historical_data st @
           map (make_sample (now + current_time st * 1000000))
             (cells_data (fst (simulate_real_time_data now g st))) \<and>
         length (cells_data (fst (simulate_real_time_data now g st))) = length (cells_data st) \<and>
         map fst (cells_data (fst (simulate_real_time_data now g st))) = map fst (cells_data st) \<and>
         (\<forall>h \<in> set (drop (length (historical_data st))
                     (historical_data (fst (simulate_real_time_data now g st)))).
            timestamp h = now + current_time st * 1000000)"
  using assms
  by (auto simp: tick_nonempty timedelta_seconds_def update_cells_length update_cells_keys
      make_sample_def)

theorem tick_appends_samples_witness:
  "cells_data one_lfp_cell \<noteq> [] \<and>
   historical_data (fst (simulate_real_time_data 5000000 (sconst 0) one_lfp_cell)) =
     historical_data one_lfp_cell @
     map (make_sample (5000000 + current_time one_lfp_cell * 1000000))
       (cells_data (fst (simulate_real_time_data 5000000 (sconst 0) one_lfp_cell))) \<and>
   length (cells_data (fst (simulate_real_time_data 5000000 (sconst 0) one_lfp_cell))) = 1"
proof -
  have ne: "cells_data one_lfp_cell \<noteq> []"
    by (simp add: one_lfp_cell_value)
  from tick_appends_samples [OF ne, of 5000000 "sconst 0"] ne show ?thesis
    by (simp add: one_lfp_cell_value)
qed

text \<open>
  C4 as stated fails: the same session, its tick counter at 0, gets the timestamp of
  the moment the tick runs (5 s or 9 s on the clock), so the timestamp is not a
  function of the session's start and the counter.
\<close>

theorem tick_timestamp_counterexample:
  "current_time one_lfp_cell = 0 \<and>
   map timestamp (historical_data (fst (simulate_real_time_data 5000000 (sconst 0) one_lfp_cell)))
     = [5000000] \<and>
   map timestamp (historical_data (fst (simulate_real_time_data 9000000 (sconst 0) one_lfp_cell)))
     = [9000000]"
  by (simp add: tick_nonempty one_lfp_cell_value timedelta_seconds_def update_cells_keys
      make_sample_def case_prod_beta uniform_def)

subsection \<open>Capacity after a tick\<close>

text \<open>
  C1 (as amended). After a tick the stored capacity of every cell is the product of the
  new voltage and the new current as clamped but not yet rounded, rounded to 2
  decimals; the stored voltage and current are the 2-decimal roundings of these two
  values.
\<close>

theorem tick_capacity_of_unrounded:
  assumes "i < length (cells_data st)"
  shows "case cell_draws g i of (voltage_change, temp_change, current_change) \<Rightarrow>
           (let c = snd (cells_data st ! i);
                c' = snd (cells_data (fst (simulate_real_time_data now g st)) ! i);
                new_voltage = max (min_voltage c) (min (max_voltage c) (voltage c + voltage_change));
                new_current = max 0 (current c + current_change)
            in voltage c' = py_round new_voltage 2 \<and>
               current c' = py_round new_current 2 \<and>
               capacity c' = py_round (new_voltage * new_current) 2)"
  using assms
  by (simp add: tick_cells update_cells_nth update_cell_def Let_def case_prod_beta)

lemma after_small_rise_cells:
  "cells_data after_small_rise =
     [(''cell_1_lfp'',
        \<lparr>cell_id = ''cell_1_lfp'', cell_type = ''lfp'', voltage = 32 / 10, current = 1,
         temp = 25, capacity = 322 / 100, min_voltage = 28 / 10, max_voltage = 36 / 10,
         cell_status = ''Active''\<rparr>)]"
  by (simp add: after_small_rise_def tick_nonempty one_lfp_cell_value uniform_def
      update_cell_def py_round_def round_half_even_def Let_def)

text \<open>
  C1 as stated fails: an LFP cell at 3.2 V and 1.0 A, with changes of 0.004 V and
  0.004 A, stores voltage 3.2 and current 1.0 again, but capacity
  \<open>round(3.204 * 1.004, 2) = 3.22\<close>, while \<open>round(3.2 * 1.0, 2) = 3.2\<close>.
\<close>

theorem tick_capacity_counterexample:
  "map (voltage \<circ> snd) (cells_data after_small_rise) = [32 / 10] \<and>
   map (current \<circ> snd) (cells_data after_small_rise) = [1] \<and>
   map (capacity \<circ> snd) (cells_data after_small_rise) = [322 / 100] \<and>
   py_round (32 / 10 * 1) 2 \<noteq> 322 / 100"
  by (simp add: after_small_rise_cells py_round_def round_half_even_def Let_def)

theorem tick_capacity_of_unrounded_witness:
  "(0::nat) < length (cells_data one_lfp_cell) \<and>
   capacity (snd (cells_data after_small_rise ! 0)) =
     py_round (max (28 / 10) (min (36 / 10) (32 / 10 + 4 / 1000)) * max 0 (1 + 4 / 1000)) 2"
proof -
  have len: "(0::nat) < length (cells_data one_lfp_cell)"
    by (simp add: one_lfp_cell_value)
  have draws: "cell_draws (54 / 100 ## 1 / 2 ## 52 / 100 ## sconst 0) 0 = (4 / 1000, 0, 4 / 1000)"
    by (simp add: cell_draws_0 uniform_def)
  from tick_capacity_of_unrounded
    [where st = one_lfp_cell and i = 0 and now = 0
       and g = "54 / 100 ## 1 / 2 ## 52 / 100 ## sconst 0", OF len]
  show ?thesis
    unfolding draws after_small_rise_def [symmetric]
    by (simp add: len one_lfp_cell_value Let_def)
qed

subsection \<open>Clamping\<close>

lemma update_cell_in_range:
  assumes "bounds_ok c"
  shows "in_range (update_cell dv dt dc c)"
proof -
  let ?nv = "max (min_voltage c) (min (max_voltage c) (voltage c + dv))"
  let ?nt = "max 20 (min 50 (temp c + dt)) :: real"
  let ?nc = "max 0 (current c + dc) :: real"
  from assms have b: "min_voltage c \<le> max_voltage c" "py_round (min_voltage c) 2 = min_voltage c"
    "py_round (max_voltage c) 2 = max_voltage c"
    by (simp_all add: bounds_ok_def)
  from b(1) have "min_voltage c \<le> ?nv" "?nv \<le> max_voltage c" by simp_all
  then have v: "min_voltage c \<le> py_round ?nv 2 \<and> py_round ?nv 2 \<le> max_voltage c"
    using b(2,3) by (rule py_round_between)
  have "20 \<le> ?nt" "?nt \<le> 50" by simp_all
  then have t: "20 \<le> py_round ?nt 1 \<and> py_round ?nt 1 \<le> 50"
    by (rule py_round_between) (simp_all only: py_round_numeral)
  have "0 \<le> ?nc" by simp
  then have "py_round 0 2 \<le> py_round ?nc 2" by (rule py_round_mono)
  then have i: "0 \<le> py_round ?nc 2" by (simp only: py_round_0)
  from v t i show ?thesis
    by (simp add: in_range_def update_cell_def Let_def)
qed

lemma update_cell_bounds:
  "min_voltage (update_cell dv dt dc c) = min_voltage c \<and>
   max_voltage (update_cell dv dt dc c) = max_voltage c"
  by (simp add: update_cell_def Let_def)

lemma update_cell_bounds_ok: "bounds_ok (update_cell dv dt dc c) = bounds_ok c"
  by (simp add: bounds_ok_def update_cell_bounds)

lemma update_cells_in_range:
  "\<forall>kc \<in> set cs. bounds_ok (snd kc) \<Longrightarrow>
   \<forall>kc \<in> set (fst (update_cells g cs)). in_range (snd kc) \<and> bounds_ok (snd kc)"
proof (induction cs arbitrary: g)
  case Nil
  then show ?case by simp
next
  case (Cons kc cs)
  obtain k c where kc: "kc = (k, c)" by (cases kc)
  from Cons.prems have "bounds_ok c" and rest: "\<forall>kc \<in> set cs. bounds_ok (snd kc)"
    by (simp_all add: kc)
  with Cons.IH [OF rest] show ?case
    by (simp add: kc case_prod_beta update_cell_in_range update_cell_bounds_ok)
qed

lemma update_cells_bounds: "map cell_bounds (fst (update_cells g cs)) = map cell_bounds cs"
  by (induction cs arbitrary: g)
    (auto simp: case_prod_beta update_cell_bounds cell_bounds_def)

lemma ticks_frame: "map cell_bounds (cells_data (fst (ticks nows g st))) = map cell_bounds (cells_data st)"
proof (induction nows arbitrary: g st)
  case Nil
  then show ?case by simp
next
  case (Cons now nows)
  show ?case
    using Cons.IH [of "snd (simulate_real_time_data now g st)"
        "fst (simulate_real_time_data now g st)"]
    by (simp add: case_prod_beta tick_cells update_cells_bounds)
qed

lemma ticks_in_range:
  assumes "\<forall>kc \<in> set (cells_data st). in_range (snd kc) \<and> bounds_ok (snd kc)"
  shows "\<forall>kc \<in> set (cells_data (fst (ticks nows g st))). in_range (snd kc) \<and> bounds_ok (snd kc)"
  using assms
proof (induction nows arbitrary: g st)
  case Nil
  then show ?case by simp
next
  case (Cons now nows)
  let ?st' = "fst (simulate_real_time_data now g st)"
  from Cons.prems have "\<forall>kc \<in> set (cells_data st). bounds_ok (snd kc)" by simp
  then have "\<forall>kc \<in> set (cells_data ?st'). in_range (snd kc) \<and> bounds_ok (snd kc)"
    unfolding tick_cells by (rule update_cells_in_range)
  from Cons.IH [OF this, of "snd (simulate_real_time_data now g st)"] show ?case
    by (simp add: case_prod_beta)
qed

text \<open>
  C2. After every tick of a sequence of ticks of any length, on a registry whose cells
  carry well-formed voltage bounds, every cell has its voltage within its own
  \<open>[min_voltage, max_voltage]\<close>, its temperature within \<open>[20, 50]\<close> and its current
  \<open>\<ge> 0\<close>; the ticks change neither the keys nor the bounds.
\<close>

theorem ticks_keep_cells_in_range:
  assumes "\<forall>kc \<in> set (cells_data st). bounds_ok (snd kc)" and "nows \<noteq> []"
  shows "(\<forall>kc \<in> set (cells_data (fst (ticks nows g st))).
            min_voltage (snd kc) \<le> voltage (snd kc) \<and> voltage (snd kc) \<le> max_voltage (snd kc) \<and>
            20 \<le> temp (snd kc) \<and> temp (snd kc) \<le> 50 \<and> 0 \<le> current (snd kc)) \<and>
         map cell_bounds (cells_data (fst (ticks nows g st))) = map cell_bounds (cells_data st)"
proof -
  from assms(2) obtain now rest where nows: "nows = now # rest" by (cases nows) auto
  let ?st' = "fst (simulate_real_time_data now g st)"
  have "\<forall>kc \<in> set (cells_data ?st'). in_range (snd kc) \<and> bounds_ok (snd kc)"
    unfolding tick_cells using assms(1) by (rule update_cells_in_range)
  from ticks_in_range [OF this, of rest "snd (simulate_real_time_data now g st)"]
  have "\<forall>kc \<in> set (cells_data (fst (ticks nows g st))). in_range (snd kc)"
    by (simp add: nows case_prod_beta)
  then show ?thesis
    using ticks_frame [of nows g st] by (simp add: in_range_def)
qed

theorem ticks_keep_cells_in_range_witness:
  "list_all (bounds_ok \<circ> snd) (cells_data one_lfp_cell) \<and>
   list_all (in_range \<circ> snd)
     (cells_data (fst (ticks [0, 1000000] (sconst (9 / 10)) one_lfp_cell)))"
proof -
  have h1: "\<forall>kc \<in> set (cells_data one_lfp_cell). bounds_ok (snd kc)"
    by (simp add: one_lfp_cell_value bounds_ok_def py_round_def round_half_even_def Let_def)
  have h2: "[0, 1000000 :: int] \<noteq> []"
    by simp
  from ticks_keep_cells_in_range [OF h1 h2, of "sconst (9 / 10)"] h1 show ?thesis
    by (simp add: list_all_iff in_range_def)
qed

subsection \<open>Creating cells\<close>

lemma map_of_dict_set: "map_of (dict_set k v d) k' = (if k' = k then Some v else map_of d k')"
  by (induction d) auto

lemma set_dict_set: "set (dict_set k v d) \<subseteq> insert (k, v) (set d)"
  by (induction d) (auto split: if_splits)

lemma add_cells_not_Nil: "is \<noteq> [] \<or> d \<noteq> [] \<Longrightarrow> fst (add_cells ctype s is g d) \<noteq> []"
  by (induction "is" arbitrary: g d) (auto simp: case_prod_beta dict_set_not_Nil)

lemma add_cells_keeps:
  assumes gen: "\<And>j g'. P (fst (generate_cell_data (lower ctype) j g'))"
    and "\<exists>c. map_of d k = Some c \<and> P c"
  shows "\<exists>c. map_of (fst (add_cells ctype s is g d)) k = Some c \<and> P c"
  using assms(2)
proof (induction "is" arbitrary: g d)
  case Nil
  then show ?case by simp
next
  case (Cons i "is")
  let ?key = "''cell_'' @ str_nat (s + i) @ ''_'' @ lower ctype"
  let ?r = "generate_cell_data (lower ctype) (s + i) g"
  from Cons.prems gen [of "s + i" g]
  have "\<exists>c. map_of (dict_set ?key (fst ?r) d) k = Some c \<and> P c"
    by (simp add: map_of_dict_set)
  from Cons.IH [OF this, of "snd ?r"] show ?case
    by (simp add: case_prod_beta)
qed

lemma add_cells_inserts:
  assumes gen: "\<And>j g'. P (fst (generate_cell_data (lower ctype) j g'))"
    and "i \<in> set is"
  shows "\<exists>c. map_of (fst (add_cells ctype s is g d))
               (''cell_'' @ str_nat (s + i) @ ''_'' @ lower ctype) = Some c \<and> P c"
  using assms(2)
proof (induction "is" arbitrary: g d)
  case Nil
  then show ?case by simp
next
  case (Cons j "is")
  let ?key = "\<lambda>n. ''cell_'' @ str_nat (s + n) @ ''_'' @ lower ctype"
  let ?r = "generate_cell_data (lower ctype) (s + j) g"
  show ?case
  proof (cases "i \<in> set is")
    case True
    from Cons.IH [OF True, of "snd ?r" "dict_set (?key j) (fst ?r) d"] show ?thesis
      by (simp add: case_prod_beta)
  next
    case False
    with Cons.prems have ij: "i = j" by simp
    have "\<exists>c. map_of (dict_set (?key j) (fst ?r) d) (?key j) = Some c \<and> P c"
      using gen [of "s + j" g] by (simp add: map_of_dict_set)
    from add_cells_keeps [of P ctype, OF gen this, of s "is" "snd ?r"] show ?thesis
      by (simp add: case_prod_beta ij)
  qed
qed

lemma lower_idem_LFP_NMC:
  "ctype = ''LFP'' \<or> ctype = ''NMC'' \<Longrightarrow>
   (lower (lower ctype) = ''lfp'') = (ctype = ''LFP'')"
  by (auto simp: lower_LFP lower_NMC lower_lfp lower_nmc)

text \<open>
  C9. For both chemistries and every count, each of the cells the "Add Cells" handler
  creates (the registry entries under the keys \<open>cell_{start_id + i}_{type}\<close>, \<open>i < count\<close>)
  has the nominal voltage of its chemistry (LFP 3.2, NMC 3.6), whatever the generator
  draws, the bounds \<open>[2.8, 3.6]\<close> (LFP) or \<open>[3.2, 4.0]\<close> (NMC), and capacity
  \<open>round(voltage * current, 2)\<close>.
\<close>

theorem create_cells_nominal:
  assumes "ctype = ''LFP'' \<or> ctype = ''NMC''" and "i < cell_count"
  shows "\<exists>c. map_of (cells_data (fst (create_cells ctype cell_count g st)))
                (''cell_'' @ str_nat (length (cells_data st) + 1 + i) @ ''_'' @ lower ctype)
                = Some c \<and>
              voltage c = (if ctype = ''LFP'' then 32 / 10 else 36 / 10) \<and>
              min_voltage c = (if ctype = ''LFP'' then 28 / 10 else 32 / 10) \<and>
              max_voltage c = (if ctype = ''LFP'' then 36 / 10 else 4) \<and>
              capacity c = py_round (voltage c * current c) 2"
proof -
  let ?P = "\<lambda>c. voltage c = (if ctype = ''LFP'' then 32 / 10 else 36 / 10) \<and>
              min_voltage c = (if ctype = ''LFP'' then 28 / 10 else 32 / 10) \<and>
              max_voltage c = (if ctype = ''LFP'' then 36 / 10 else 4) \<and>
              capacity c = py_round (voltage c * current c) 2"
  have gen: "\<And>j g'. ?P (fst (generate_cell_data (lower ctype) j g'))"
    using lower_idem_LFP_NMC [OF assms(1)]
    by (simp add: generate_cell_data_def case_prod_beta Let_def)
  from assms(2) have "i \<in> set [0..<cell_count]" by simp
  from add_cells_inserts [of ?P ctype, OF gen this, of "length (cells_data st) + 1" g "cells_data st"]
  show ?thesis
    by (simp add: create_cells_def case_prod_beta)
qed

theorem create_cells_nominal_witness:
  "(''LFP'' = ''LFP'' \<or> ''LFP'' = ''NMC'') \<and> (0::nat) < 1 \<and>
   (\<exists>c. map_of (cells_data one_lfp_cell) ''cell_1_lfp'' = Some c \<and>
        voltage c = 32 / 10 \<and> min_voltage c = 28 / 10 \<and> max_voltage c = 36 / 10 \<and>
        capacity c = py_round (voltage c * current c) 2)"
  using create_cells_nominal
    [where ctype = "''LFP''" and i = 0 and cell_count = 1
       and g = "9 / 19 ## 0 ## sconst 0" and st = initialize_session_state]
  by (simp add: one_lfp_cell_def initialize_session_state_def lower_LFP str_nat_Suc_0)


lemma create_cells_not_Nil:
  "0 < cell_count \<Longrightarrow> cells_data (fst (create_cells ctype cell_count g st)) \<noteq> []"
  by (simp add: create_cells_def case_prod_beta add_cells_not_Nil)

lemma create_cells_frame:
  "tasks_data (fst (create_cells ctype cell_count g st)) = tasks_data st \<and>
   historical_data (fst (create_cells ctype cell_count g st)) = historical_data st \<and>
   current_time (fst (create_cells ctype cell_count g st)) = current_time st \<and>
   simulation_running (fst (create_cells ctype cell_count g st)) = simulation_running st"
  by (simp add: create_cells_def case_prod_beta)

text \<open>
  Every cell the program makes has well-formed voltage bounds, and creating cells keeps
  a registry of such cells one: the hypothesis of the clamping theorem holds of every
  registry the handlers build.
\<close>

lemma generate_cell_data_bounds_ok: "bounds_ok (fst (generate_cell_data ctype cid g))"
  by (simp add: generate_cell_data_def bounds_ok_def case_prod_beta Let_def py_round_def
      round_half_even_def)

lemma add_cells_bounds_ok:
  "\<forall>kc \<in> set d. bounds_ok (snd kc) \<Longrightarrow>
   \<forall>kc \<in> set (fst (add_cells ctype s is g d)). bounds_ok (snd kc)"
proof (induction "is" arbitrary: g d)
  case Nil
  then show ?case by simp
next
  case (Cons i "is")
  let ?key = "''cell_'' @ str_nat (s + i) @ ''_'' @ lower ctype"
  let ?r = "generate_cell_data (lower ctype) (s + i) g"
  from Cons.prems set_dict_set [of ?key "fst ?r" d] generate_cell_data_bounds_ok [of "lower ctype" "s + i" g]
  have "\<forall>kc \<in> set (dict_set ?key (fst ?r) d). bounds_ok (snd kc)"
    by auto
  from Cons.IH [OF this, of "snd ?r"] show ?case
    by (simp add: case_prod_beta)
qed

lemma create_cells_bounds_ok:
  "\<forall>kc \<in> set (cells_data st). bounds_ok (snd kc) \<Longrightarrow>
   \<forall>kc \<in> set (cells_data (fst (create_cells ctype cell_count g st))). bounds_ok (snd kc)"
  using add_cells_bounds_ok [of "cells_data st" ctype "length (cells_data st) + 1"
      "[0..<cell_count]" g]
  by (simp add: create_cells_def case_prod_beta)

subsection \<open>Clearing\<close>

lemma timestamp_make_sample: "map timestamp (map (make_sample ts) cs) = replicate (length cs) ts"
  by (induction cs) (simp_all add: make_sample_def)

lemma cell_id_make_sample: "map sample_cell_id (map (make_sample ts) cs) = map fst cs"
  by (induction cs) (simp_all add: make_sample_def)

text \<open>
  C10. "Clear All Cells" empties the registry and the history and keeps the tick
  counter, so that the samples of a tick after clearing and creating cells (one per
  created cell, under its key) all have the timestamp of the clock reading plus the
  counter from before the clearing, in seconds; "Clear History" empties the history,
  sets the counter to 0 and keeps the registry (and the tasks); no other operation
  resets the counter: the tick adds 1 or nothing, and creating cells, adding, starting,
  deleting and advancing tasks leave it as it is.
\<close>

theorem clear_all_cells_keeps_counter:
  "cells_data (clear_all_cells st) = [] \<and>
   historical_data (clear_all_cells st) = [] \<and>
   current_time (clear_all_cells st) = current_time st \<and>
   (0 < cell_count \<longrightarrow>
      historical_data
        (fst (simulate_real_time_data now g'
               (fst (create_cells ctype cell_count g (clear_all_cells st))))) =
      map (make_sample (now + current_time st * 1000000))
        (cells_data
          (fst (simulate_real_time_data now g'
                 (fst (create_cells ctype cell_count g (clear_all_cells st)))))) \<and>
      map timestamp
        (historical_data
          (fst (simulate_real_time_data now g'
                 (fst (create_cells ctype cell_count g (clear_all_cells st)))))) =
      replicate
        (length (cells_data (fst (create_cells ctype cell_count g (clear_all_cells st)))))
        (now + current_time st * 1000000) \<and>
      map sample_cell_id
        (historical_data
          (fst (simulate_real_time_data now g'
                 (fst (create_cells ctype cell_count g (clear_all_cells st)))))) =
      map fst (cells_data (fst (create_cells ctype cell_count g (clear_all_cells st)))) \<and>
      cells_data (fst (create_cells ctype cell_count g (clear_all_cells st))) \<noteq> [] \<and>
      current_time
        (fst (simulate_real_time_data now g'
               (fst (create_cells ctype cell_count g (clear_all_cells st))))) =
      current_time st + 1) \<and>
   historical_data (clear_history st) = [] \<and>
   current_time (clear_history st) = 0 \<and>
   cells_data (clear_history st) = cells_data st \<and>
   tasks_data (clear_history st) = tasks_data st \<and>
   current_time (fst (create_cells ctype cell_count g st)) = current_time st \<and>
   current_time (fst (simulate_real_time_data now g st))
     = (if cells_data st \<noteq> [] then current_time st + 1 else current_time st) \<and>
   current_time (add_task p st) = current_time st \<and>
   current_time (fst (advance_progress r st)) = current_time st \<and>
   (\<forall>st'. start_task k st = Inr st' \<longrightarrow> current_time st' = current_time st) \<and>
   (\<forall>st'. delete_task k st = Inr st' \<longrightarrow> current_time st' = current_time st)"
proof -
  let ?made = "fst (create_cells ctype cell_count g (clear_all_cells st))"
  let ?ticked = "fst (simulate_real_time_data now g' ?made)"
  let ?ts = "now + current_time st * 1000000"
  have cleared: "cells_data (clear_all_cells st) = [] \<and>
      historical_data (clear_all_cells st) = [] \<and>
      current_time (clear_all_cells st) = current_time st"
    by (simp add: clear_all_cells_def)
  have after: "0 < cell_count \<longrightarrow>
      historical_data ?ticked = map (make_sample ?ts) (cells_data ?ticked) \<and>
      map timestamp (historical_data ?ticked) = replicate (length (cells_data ?made)) ?ts \<and>
      map sample_cell_id (historical_data ?ticked) = map fst (cells_data ?made) \<and>
      cells_data ?made \<noteq> [] \<and>
      current_time ?ticked = current_time st + 1"
  proof
    assume "0 < cell_count"
    then have ne: "cells_data ?made \<noteq> []"
      by (rule create_cells_not_Nil)
    have hist: "historical_data ?ticked = map (make_sample ?ts) (cells_data ?ticked)"
      and count: "current_time ?ticked = current_time st + 1"
      using create_cells_frame [of ctype cell_count g "clear_all_cells st"] cleared
      by (simp_all add: tick_nonempty [OF ne] timedelta_seconds_def)
    have len: "length (cells_data ?ticked) = length (cells_data ?made)"
      and keys: "map fst (cells_data ?ticked) = map fst (cells_data ?made)"
      by (simp_all add: tick_cells update_cells_length update_cells_keys)
    have stamps: "map timestamp (historical_data ?ticked) =
        replicate (length (cells_data ?made)) ?ts"
      unfolding hist timestamp_make_sample len ..
    have ids: "map sample_cell_id (historical_data ?ticked) = map fst (cells_data ?made)"
      unfolding hist cell_id_make_sample keys ..
    from hist stamps ids ne count
    show "historical_data ?ticked = map (make_sample ?ts) (cells_data ?ticked) \<and>
      map timestamp (historical_data ?ticked) = replicate (length (cells_data ?made)) ?ts \<and>
      map sample_cell_id (historical_data ?ticked) = map fst (cells_data ?made) \<and>
      cells_data ?made \<noteq> [] \<and>
      current_time ?ticked = current_time st + 1"
      by (intro conjI)
  qed
  have history: "historical_data (clear_history st) = [] \<and>
      current_time (clear_history st) = 0 \<and>
      cells_data (clear_history st) = cells_data st \<and>
      tasks_data (clear_history st) = tasks_data st"
    by (simp add: clear_history_def)
  have others: "current_time (fst (create_cells ctype cell_count g st)) = current_time st \<and>
      current_time (fst (simulate_real_time_data now g st))
        = (if cells_data st \<noteq> [] then current_time st + 1 else current_time st) \<and>
      current_time (add_task p st) = current_time st \<and>
      current_time (fst (advance_progress r st)) = current_time st \<and>
      (\<forall>st'. start_task k st = Inr st' \<longrightarrow> current_time st' = current_time st) \<and>
      (\<forall>st'. delete_task k st = Inr st' \<longrightarrow> current_time st' = current_time st)"
    by (auto simp: create_cells_frame tick_nonempty tick_empty add_task_def Let_def
        advance_progress_def case_prod_beta start_task_def delete_task_def split: if_splits)
  from cleared after history others show ?thesis
    by blast
qed

lemma busy_session_counter:
  "current_time busy_session = 1 \<and>
   tasks_data busy_session =
     [(''task_1'', \<lparr>params = IDLE 1800, status = Pending, progress = 0\<rparr>)]"
  by (simp add: busy_session_def add_task_def after_small_rise_def tick_nonempty
      one_lfp_cell_value str_nat_Suc_0 Let_def)

lemma two_nmc_cells_keys:
  "map fst (cells_data (fst (create_cells ''NMC'' 2 (sconst 0) (clear_all_cells busy_session))))
     = [''cell_1_nmc'', ''cell_2_nmc'']"
  by (simp add: create_cells_def clear_all_cells_def numeral_2_eq_2 case_prod_beta Let_def
      lower_NMC str_nat_Suc_0 str_nat_Suc_Suc_0)

theorem clear_all_cells_keeps_counter_witness:
  "current_time busy_session = 1 \<and>
   historical_data busy_session \<noteq> [] \<and>
   current_time
     (fst (simulate_real_time_data 7000000 (sconst 0)
            (fst (create_cells ''NMC'' 2 (sconst 0) (clear_all_cells busy_session))))) = 2 \<and>
   map timestamp
     (historical_data
       (fst (simulate_real_time_data 7000000 (sconst 0)
              (fst (create_cells ''NMC'' 2 (sconst 0) (clear_all_cells busy_session))))))
     = [8000000, 8000000] \<and>
   map sample_cell_id
     (historical_data
       (fst (simulate_real_time_data 7000000 (sconst 0)
              (fst (create_cells ''NMC'' 2 (sconst 0) (clear_all_cells busy_session))))))
     = [''cell_1_nmc'', ''cell_2_nmc''] \<and>
   historical_data
     (fst (simulate_real_time_data 7000000 (sconst 0)
            (fst (create_cells ''NMC'' 2 (sconst 0) (clear_all_cells busy_session))))) =
   map (make_sample 8000000)
     (cells_data
       (fst (simulate_real_time_data 7000000 (sconst 0)
              (fst (create_cells ''NMC'' 2 (sconst 0) (clear_all_cells busy_session)))))) \<and>
   start_task ''task_1'' busy_session =
     Inr (busy_session
           \<lparr>tasks_data :=
              [(''task_1'', \<lparr>params = IDLE 1800, status = Running, progress = 0\<rparr>)]\<rparr>) \<and>
   current_time
     (busy_session
        \<lparr>tasks_data :=
           [(''task_1'', \<lparr>params = IDLE 1800, status = Running, progress = 0\<rparr>)]\<rparr>) = 1 \<and>
   delete_task ''task_1'' busy_session = Inr (busy_session\<lparr>tasks_data := []\<rparr>) \<and>
   current_time (busy_session\<lparr>tasks_data := []\<rparr>) = 1 \<and>
   current_time (clear_history busy_session) = 0"
proof -
  let ?made = "fst (create_cells ''NMC'' 2 (sconst 0) (clear_all_cells busy_session))"
  let ?ticked = "fst (simulate_real_time_data 7000000 (sconst 0) ?made)"
  note t = clear_all_cells_keeps_counter
    [where st = busy_session and cell_count = 2 and ctype = "''NMC''" and g = "sconst 0"
       and g' = "sconst 0" and now = 7000000 and k = "''task_1''"]
  have two: "(0::nat) < 2" by simp
  have c: "current_time busy_session = 1"
    by (simp add: busy_session_counter)
  have hne: "historical_data busy_session \<noteq> []"
    by (simp add: busy_session_def add_task_def after_small_rise_def tick_nonempty
        one_lfp_cell_value Let_def case_prod_beta)
  have len: "length (cells_data ?made) = 2"
    using arg_cong [OF two_nmc_cells_keys, of length] by simp
  from t two have "current_time ?ticked = current_time busy_session + 1"
    by blast
  then have a: "current_time ?ticked = 2"
    by (simp add: c)
  from t two have "map timestamp (historical_data ?ticked) =
      replicate (length (cells_data ?made)) (7000000 + current_time busy_session * 1000000)"
    by blast
  then have "map timestamp (historical_data ?ticked) = replicate 2 (7000000 + 1 * 1000000)"
    by (simp only: c len)
  then have stamps: "map timestamp (historical_data ?ticked) = [8000000, 8000000]"
    by (simp add: numeral_2_eq_2)
  from t two have "map sample_cell_id (historical_data ?ticked) = map fst (cells_data ?made)"
    by blast
  then have ids: "map sample_cell_id (historical_data ?ticked) = [''cell_1_nmc'', ''cell_2_nmc'']"
    by (simp only: two_nmc_cells_keys)
  from t two have "historical_data ?ticked =
      map (make_sample (7000000 + current_time busy_session * 1000000)) (cells_data ?ticked)"
    by blast
  then have b: "historical_data ?ticked = map (make_sample 8000000) (cells_data ?ticked)"
    by (simp add: c)
  have s: "start_task ''task_1'' busy_session =
     Inr (busy_session
           \<lparr>tasks_data :=
              [(''task_1'', \<lparr>params = IDLE 1800, status = Running, progress = 0\<rparr>)]\<rparr>)"
    by (simp add: start_task_def busy_session_counter)
  have d: "delete_task ''task_1'' busy_session = Inr (busy_session\<lparr>tasks_data := []\<rparr>)"
    by (simp add: delete_task_def busy_session_counter)
  from t s have "current_time
     (busy_session
        \<lparr>tasks_data :=
           [(''task_1'', \<lparr>params = IDLE 1800, status = Running, progress = 0\<rparr>)]\<rparr>) =
     current_time busy_session"
    by blast
  then have s': "current_time
     (busy_session
        \<lparr>tasks_data :=
           [(''task_1'', \<lparr>params = IDLE 1800, status = Running, progress = 0\<rparr>)]\<rparr>) = 1"
    by (simp only: c)
  from t d have "current_time (busy_session\<lparr>tasks_data := []\<rparr>) = current_time busy_session"
    by blast
  then have d': "current_time (busy_session\<lparr>tasks_data := []\<rparr>) = 1"
    by (simp only: c)
  from t have h: "current_time (clear_history busy_session) = 0"
    by blast
  from c hne a stamps ids b s s' d d' h show ?thesis
    by (intro conjI)
qed

subsection \<open>The progress loop\<close>

lemma idle_started_reached:
  "start_task ''task_1'' (add_task (IDLE 1800) initialize_session_state) = Inr idle_started"
  by (simp add: start_task_def add_task_def initialize_session_state_def idle_started_def
      str_nat_Suc_0)

lemma progress_loop_length: "length (fst (progress_loop g l)) = length l"
  by (induction l arbitrary: g) (auto simp: case_prod_beta randint_def)

lemma progress_loop_rng: "sset (snd (progress_loop g l)) \<subseteq> sset g"
proof (induction l arbitrary: g)
  case Nil
  then show ?case by simp
next
  case (Cons kt l)
  obtain k t where kt: "kt = (k, t)" by (cases kt)
  show ?case
  proof (cases "status t = Running")
    case True
    have "sset (stl g) \<subseteq> sset g" by (auto dest: stl_sset)
    with Cons.IH [of "stl g"] True show ?thesis
      by (auto simp: kt case_prod_beta randint_def)
  next
    case False
    with Cons.IH [of g] show ?thesis
      by (simp add: kt case_prod_beta)
  qed
qed

lemma progress_loop_nth:
  "i < length l \<Longrightarrow>
   \<exists>r \<in> sset g. fst (progress_loop g l) ! i =
     (fst (l ! i),
      if status (snd (l ! i)) = Running then advance_task r (snd (l ! i)) else snd (l ! i))"
proof (induction l arbitrary: g i)
  case Nil
  then show ?case by simp
next
  case (Cons kt l)
  obtain k t where kt: "kt = (k, t)" by (cases kt)
  show ?case
  proof (cases i)
    case 0
    have "shd g \<in> sset g" by (rule shd_sset)
    then show ?thesis
      by (intro bexI [of _ "shd g"]) (simp_all add: 0 kt case_prod_beta randint_def)
  next
    case (Suc j)
    with Cons.prems have j: "j < length l" by simp
    show ?thesis
    proof (cases "status t = Running")
      case True
      from Cons.IH [OF j, of "stl g"] obtain r where
        r: "r \<in> sset (stl g)" and
        eq: "fst (progress_loop (stl g) l) ! j =
          (fst (l ! j),
           if status (snd (l ! j)) = Running then advance_task r (snd (l ! j)) else snd (l ! j))"
        by blast
      from r have r': "r \<in> sset g" by (rule stl_sset)
      from True have "fst (progress_loop g (kt # l)) ! i = fst (progress_loop (stl g) l) ! j"
        by (simp add: Suc kt case_prod_beta randint_def)
      with eq r' show ?thesis
        by (intro bexI [of _ r]) (simp_all add: Suc)
    next
      case False
      from Cons.IH [OF j, of g] obtain r where
        r: "r \<in> sset g" and
        eq: "fst (progress_loop g l) ! j =
          (fst (l ! j),
           if status (snd (l ! j)) = Running then advance_task r (snd (l ! j)) else snd (l ! j))"
        by blast
      from False have "fst (progress_loop g (kt # l)) ! i = fst (progress_loop g l) ! j"
        by (simp add: Suc kt case_prod_beta)
      with eq r show ?thesis
        by (intro bexI [of _ r]) (simp_all add: Suc)
    qed
  qed
qed

lemma advance_progress_tasks:
  "tasks_data (fst (advance_progress g st)) = fst (progress_loop g (tasks_data st))"
  by (cases "tasks_data st = []") (simp_all add: advance_progress_def case_prod_beta)

lemma advance_progress_rng: "sset (snd (advance_progress g st)) \<subseteq> sset g"
  using progress_loop_rng [of g "tasks_data st"]
  by (simp add: advance_progress_def case_prod_beta)

text \<open>
  C7. One run of the progress loop, with draws in \<open>{1..5}\<close>, keeps the ledger's length
  and keys, leaves every task that is not Running as it is, and gives every Running task
  the progress \<open>min(100, progress + r)\<close> for some \<open>r\<close> in \<open>{1..5}\<close>, the status Completed
  if that new progress is 100 and Running otherwise, and the same parameters.
\<close>

theorem advance_progress_effect:
  assumes "\<forall>r \<in> sset g. 1 \<le> r \<and> r \<le> 5" and "i < length (tasks_data st)"
  shows "let t = snd (tasks_data st ! i);
             t' = snd (tasks_data (fst (advance_progress g st)) ! i)
         in length (tasks_data (fst (advance_progress g st))) = length (tasks_data st) \<and>
            fst (tasks_data (fst (advance_progress g st)) ! i) = fst (tasks_data st ! i) \<and>
            (status t \<noteq> Running \<longrightarrow> t' = t) \<and>
            (status t = Running \<longrightarrow>
               (\<exists>r \<in> {1..5}. progress t' = min 100 (progress t + r)) \<and>
               status t' = (if progress t' = 100 then Completed else Running) \<and>
               params t' = params t)"
proof -
  from progress_loop_nth [OF assms(2), of g] obtain r where
    r: "r \<in> sset g" and
    eq: "tasks_data (fst (advance_progress g st)) ! i =
      (fst (tasks_data st ! i),
       if status (snd (tasks_data st ! i)) = Running
       then advance_task r (snd (tasks_data st ! i)) else snd (tasks_data st ! i))"
    unfolding advance_progress_tasks by blast
  from r assms(1) have r15: "r \<in> {1..5}" by auto
  have run: "status (snd (tasks_data st ! i)) = Running \<Longrightarrow>
      \<exists>q \<in> {1..5}. progress (advance_task r (snd (tasks_data st ! i)))
        = min 100 (progress (snd (tasks_data st ! i)) + q)"
    using r15 by (intro bexI [of _ r]) (simp_all add: advance_task_def Let_def)
  have st: "status (advance_task r (snd (tasks_data st ! i))) =
      (if progress (advance_task r (snd (tasks_data st ! i))) = 100 then Completed else Running)"
    if "status (snd (tasks_data st ! i)) = Running"
    using that by (simp add: advance_task_def Let_def)
  have pa: "params (advance_task r t) = params t" for t
    by (simp add: advance_task_def Let_def)
  show ?thesis
    unfolding Let_def eq
    using run st pa
    by (simp add: advance_progress_tasks progress_loop_length)
qed

theorem advance_progress_effect_witness:
  "(0::nat) < length (tasks_data idle_started) \<and>
   fst (tasks_data (fst (advance_progress (sconst 3) idle_started)) ! 0) = ''task_1'' \<and>
   progress (snd (tasks_data (fst (advance_progress (sconst 3) idle_started)) ! 0)) \<in> {1..5} \<and>
   status (snd (tasks_data (fst (advance_progress (sconst 3) idle_started)) ! 0)) = Running"
proof -
  have h1: "\<forall>r \<in> sset (sconst (3::int)). 1 \<le> r \<and> r \<le> 5"
    by simp
  have h2: "(0::nat) < length (tasks_data idle_started)"
    by (simp add: idle_started_def)
  from advance_progress_effect [OF h1 h2] h2 show ?thesis
    by (auto simp: Let_def idle_started_def)
qed

subsection \<open>One started task\<close>

lemma single_task_step:
  assumes "\<forall>r \<in> sset g. 1 \<le> r \<and> r \<le> 5"
    and "tasks_data st =
      [(k, \<lparr>params = q, status = (if p = 100 then Completed else Running), progress = p\<rparr>)]"
    and "p \<le> 100"
  shows "\<exists>p'. tasks_data (fst (advance_progress g st)) =
      [(k, \<lparr>params = q, status = (if p' = 100 then Completed else Running), progress = p'\<rparr>)] \<and>
      min 100 (p + 1) \<le> p' \<and> p' \<le> min 100 (p + 5)"
proof (cases "p = 100")
  case True
  with assms(2) show ?thesis
    by (simp add: advance_progress_def)
next
  case False
  have "shd g \<in> sset g" by (rule shd_sset)
  with assms(1) have r: "1 \<le> shd g" "shd g \<le> 5" by auto
  let ?p = "min 100 (p + shd g)"
  from False assms(2) have "tasks_data (fst (advance_progress g st)) =
      [(k, \<lparr>params = q, status = (if ?p = 100 then Completed else Running), progress = ?p\<rparr>)]"
    by (simp add: advance_progress_def randint_def advance_task_def Let_def)
  moreover from r have "min 100 (p + 1) \<le> ?p \<and> ?p \<le> min 100 (p + 5)"
    unfolding min_def by presburger
  ultimately show ?thesis by blast
qed

lemma single_task_calls:
  assumes "\<forall>r \<in> sset g. 1 \<le> r \<and> r \<le> 5"
    and "tasks_data st =
      [(k, \<lparr>params = q, status = (if p = 100 then Completed else Running), progress = p\<rparr>)]"
    and "p \<le> 100"
  shows "\<exists>p'. tasks_data (fst (advance_n n g st)) =
      [(k, \<lparr>params = q, status = (if p' = 100 then Completed else Running), progress = p'\<rparr>)] \<and>
      min 100 (p + int n) \<le> p' \<and> p' \<le> min 100 (p + 5 * int n)"
  using assms
proof (induction n arbitrary: g st p)
  case 0
  then show ?case by simp
next
  case (Suc n)
  let ?st = "fst (advance_progress g st)" and ?g = "snd (advance_progress g st)"
  from single_task_step [OF Suc.prems] obtain p1 where
    t1: "tasks_data ?st =
      [(k, \<lparr>params = q, status = (if p1 = 100 then Completed else Running), progress = p1\<rparr>)]"
    and lo: "min 100 (p + 1) \<le> p1" and hi: "p1 \<le> min 100 (p + 5)"
    by blast
  from Suc.prems(1) advance_progress_rng [of g st]
  have g1: "\<forall>r \<in> sset ?g. 1 \<le> r \<and> r \<le> 5" by blast
  from hi have "p1 \<le> 100" by simp
  from Suc.IH [OF g1 t1 this] obtain p' where
    t': "tasks_data (fst (advance_n n ?g ?st)) =
      [(k, \<lparr>params = q, status = (if p' = 100 then Completed else Running), progress = p'\<rparr>)]"
    and lo': "min 100 (p1 + int n) \<le> p'" and hi': "p' \<le> min 100 (p1 + 5 * int n)"
    by blast
  have suc: "int (Suc n) = int n + 1" by simp
  from lo lo' have "min 100 (p + int (Suc n)) \<le> p'"
    unfolding suc min_def by presburger
  moreover from hi hi' have "p' \<le> min 100 (p + 5 * int (Suc n))"
    unfolding suc min_def by presburger
  ultimately show ?case
    using t' by (simp add: case_prod_beta)
qed

lemma cell_and_started_task_reached:
  "start_task ''task_1'' (add_task (IDLE 1800) one_lfp_cell) = Inr cell_and_started_task"
  by (simp add: start_task_def add_task_def one_lfp_cell_value cell_and_started_task_def
      str_nat_Suc_0)

lemma advance_progress_frame:
  "cells_data (fst (advance_progress g st)) = cells_data st \<and>
   simulation_running (fst (advance_progress g st)) = simulation_running st"
  by (simp add: advance_progress_def case_prod_beta)

lemma analysis_page_no_cell: "cells_data st = [] \<Longrightarrow> analysis_page b now gu gi st = (st, gu, gi)"
  by (simp add: analysis_page_def)

lemma analysis_page_running:
  "cells_data st \<noteq> [] \<Longrightarrow> simulation_running st \<Longrightarrow>
   tasks_data (fst (analysis_page No_Button now gu gi st)) = tasks_data st"
  by (simp add: analysis_page_def case_prod_beta tick_nonempty)

lemma analysis_page_no_button:
  "cells_data st \<noteq> [] \<Longrightarrow> \<not> simulation_running st \<Longrightarrow>
   analysis_page No_Button now gu gi st =
     (fst (advance_progress gi st), gu, snd (advance_progress gi st))"
  by (simp add: analysis_page_def case_prod_beta)

lemma analysis_runs_no_button:
  assumes "cells_data st \<noteq> []" and "\<not> simulation_running st"
    and "\<forall>e \<in> set evs. fst e = No_Button"
  shows "analysis_runs evs gu gi st =
           (fst (advance_n (length evs) gi st), gu, snd (advance_n (length evs) gi st))"
  using assms
proof (induction evs arbitrary: gi st)
  case Nil
  then show ?case by simp
next
  case (Cons e evs)
  obtain b now where e: "e = (b, now)" by (cases e)
  from Cons.prems(3) have b: "b = No_Button" and rest: "\<forall>e \<in> set evs. fst e = No_Button"
    by (simp_all add: e)
  let ?st = "fst (advance_progress gi st)" and ?gi = "snd (advance_progress gi st)"
  from Cons.prems(1,2) have c: "cells_data ?st \<noteq> []" and r: "\<not> simulation_running ?st"
    by (simp_all add: advance_progress_frame)
  from Cons.IH [OF c r rest, of ?gi] show ?case
    by (simp add: e b analysis_page_no_button [OF Cons.prems(1,2)] case_prod_beta)
qed

text \<open>
  C3 (as amended). In a session with at least one cell and the simulation not running,
  whose ledger holds exactly one started IDLE task of 1800 s (Running, progress 0),
  after \<open>n\<close> runs of the analysis page with no button pressed (each of them runs the
  progress loop once), for every sequence of draws in \<open>{1..5}\<close>, the task's progress \<open>p\<close>
  is between \<open>min(100, n)\<close> and \<open>min(100, 5 n)\<close> and its status is Completed if \<open>p = 100\<close>
  and Running otherwise. So after 30 runs the progress is between 30 and 100, and it is
  100 with status Completed for every sequence of draws once there have been 100 runs.
\<close>

theorem idle_task_progress_after_calls:
  assumes "\<forall>r \<in> sset gi. 1 \<le> r \<and> r \<le> 5"
    and "cells_data st0 \<noteq> []" and "\<not> simulation_running st0"
    and "tasks_data st0 =
      [(''task_1'', \<lparr>params = IDLE 1800, status = Running, progress = 0\<rparr>)]"
    and "\<forall>e \<in> set evs. fst e = No_Button"
  shows "\<exists>p. tasks_data (fst (analysis_runs evs gu gi st0)) =
           [(''task_1'',
             \<lparr>params = IDLE 1800, status = (if p = 100 then Completed else Running),
              progress = p\<rparr>)] \<and>
           min 100 (int (length evs)) \<le> p \<and> p \<le> min 100 (5 * int (length evs)) \<and>
           (100 \<le> length evs \<longrightarrow> p = 100)"
proof -
  have runs: "tasks_data (fst (analysis_runs evs gu gi st0)) =
      tasks_data (fst (advance_n (length evs) gi st0))"
    by (simp add: analysis_runs_no_button [OF assms(2,3,5)])
  have "tasks_data st0 =
      [(''task_1'',
        \<lparr>params = IDLE 1800, status = (if (0::int) = 100 then Completed else Running),
         progress = 0\<rparr>)]"
    by (simp add: assms(4))
  from single_task_calls [OF assms(1) this, of "length evs"] obtain p where
    "tasks_data (fst (advance_n (length evs) gi st0)) =
           [(''task_1'',
             \<lparr>params = IDLE 1800, status = (if p = 100 then Completed else Running),
              progress = p\<rparr>)]"
    and "min 100 (int (length evs)) \<le> p" and "p \<le> min 100 (5 * int (length evs))"
    by auto
  then show ?thesis
    unfolding runs by (intro exI [of _ p]) auto
qed

lemma sconst_step: "tasks_data st = [(k, \<lparr>params = q, status = Running, progress = p\<rparr>)] \<Longrightarrow>
   advance_progress (sconst r) st =
     (st\<lparr>tasks_data := [(k, advance_task r \<lparr>params = q, status = Running, progress = p\<rparr>)]\<rparr>,
      sconst r)"
  by (simp add: advance_progress_def randint_def)

lemma sconst_calls:
  "tasks_data st = [(k, \<lparr>params = q, status = Running, progress = p\<rparr>)] \<Longrightarrow>
   p + r * int n < 100 \<Longrightarrow> 0 \<le> r \<Longrightarrow>
   advance_n n (sconst r) st =
     (st\<lparr>tasks_data := [(k, \<lparr>params = q, status = Running, progress = p + r * int n\<rparr>)]\<rparr>,
      sconst r)"
proof (induction n arbitrary: st p)
  case 0
  then show ?case by simp
next
  case (Suc n)
  let ?st = "st\<lparr>tasks_data := [(k, \<lparr>params = q, status = Running, progress = p + r\<rparr>)]\<rparr>"
  have expand: "r * int (Suc n) = r + r * int n"
    by (simp add: algebra_simps)
  from Suc.prems(3) have "0 \<le> r * int n" by simp
  with Suc.prems(2) have small: "p + r < 100"
    unfolding expand by linarith
  with Suc.prems(1) have step: "advance_progress (sconst r) st = (?st, sconst r)"
    by (simp add: sconst_step advance_task_def Let_def)
  have "tasks_data ?st = [(k, \<lparr>params = q, status = Running, progress = p + r\<rparr>)]"
    by simp
  moreover from Suc.prems(2) have "p + r + r * int n < 100"
    unfolding expand by linarith
  ultimately have "advance_n n (sconst r) ?st =
     (?st\<lparr>tasks_data := [(k, \<lparr>params = q, status = Running, progress = p + r + r * int n\<rparr>)]\<rparr>,
      sconst r)"
    using Suc.prems(3) by (rule Suc.IH)
  moreover have "advance_n (Suc n) (sconst r) st = advance_n n (sconst r) ?st"
    by (simp only: advance_n.simps step Let_def split_conv)
  moreover have "?st\<lparr>tasks_data :=
        [(k, \<lparr>params = q, status = Running, progress = p + r + r * int n\<rparr>)]\<rparr> =
      st\<lparr>tasks_data :=
        [(k, \<lparr>params = q, status = Running, progress = p + r * int (Suc n)\<rparr>)]\<rparr>"
    unfolding expand by (simp add: add.assoc)
  ultimately show ?case
    by (simp only:)
qed

text \<open>
  C3 as stated fails: in the session with one LFP cell and the started task, when every
  draw is 1, 30 runs of the page leave the task Running at progress 30.
\<close>

theorem thirty_calls_counterexample:
  "start_task ''task_1'' (add_task (IDLE 1800) one_lfp_cell) = Inr cell_and_started_task \<and>
   cells_data cell_and_started_task \<noteq> [] \<and>
   \<not> simulation_running cell_and_started_task \<and>
   tasks_data
     (fst (analysis_runs (replicate 30 (No_Button, 0)) (sconst 0) (sconst 1)
            cell_and_started_task)) =
     [(''task_1'', \<lparr>params = IDLE 1800, status = Running, progress = 30\<rparr>)]"
proof -
  have c: "cells_data cell_and_started_task \<noteq> []"
    and r: "\<not> simulation_running cell_and_started_task"
    and t: "tasks_data cell_and_started_task =
      [(''task_1'', \<lparr>params = IDLE 1800, status = Running, progress = 0\<rparr>)]"
    by (simp_all add: cell_and_started_task_def one_lfp_cell_value)
  have nb: "\<forall>e \<in> set (replicate 30 (No_Button, 0::int)). fst e = No_Button"
    by simp
  have "tasks_data
     (fst (analysis_runs (replicate 30 (No_Button, 0)) (sconst 0) (sconst 1)
            cell_and_started_task)) =
     tasks_data (fst (advance_n 30 (sconst 1) cell_and_started_task))"
    by (simp add: analysis_runs_no_button [OF c r nb])
  also from sconst_calls [OF t, of 1 30]
  have "\<dots> = [(''task_1'', \<lparr>params = IDLE 1800, status = Running, progress = 30\<rparr>)]"
    by simp
  finally show ?thesis
    using cell_and_started_task_reached c r by (intro conjI)
qed

theorem idle_task_progress_after_calls_witness:
  "tasks_data
     (fst (analysis_runs (replicate 100 (No_Button, 0)) (sconst 0) (sconst 1)
            cell_and_started_task)) =
     [(''task_1'', \<lparr>params = IDLE 1800, status = Completed, progress = 100\<rparr>)]"
proof -
  have h: "\<forall>r \<in> sset (sconst (1::int)). 1 \<le> r \<and> r \<le> 5"
    by simp
  have c: "cells_data cell_and_started_task \<noteq> []"
    and r: "\<not> simulation_running cell_and_started_task"
    and t: "tasks_data cell_and_started_task =
      [(''task_1'', \<lparr>params = IDLE 1800, status = Running, progress = 0\<rparr>)]"
    by (simp_all add: cell_and_started_task_def one_lfp_cell_value)
  have nb: "\<forall>e \<in> set (replicate 100 (No_Button, 0::int)). fst e = No_Button"
    by simp
  from idle_task_progress_after_calls [OF h c r t nb, of "sconst 0"] show ?thesis
    by auto
qed

lemma advance_n_snoc:
  "advance_n (Suc n) g st = (case advance_n n g st of (st', g') \<Rightarrow> advance_progress g' st')"
  by (induction n arbitrary: g st) (simp_all add: case_prod_beta)

lemma idle_completed_value:
  "idle_completed =
     initialize_session_state
       \<lparr>tasks_data := [(''task_1'', \<lparr>params = IDLE 1800, status = Completed, progress = 100\<rparr>)]\<rparr>"
proof -
  have t0: "tasks_data idle_started =
      [(''task_1'', \<lparr>params = IDLE 1800, status = Running, progress = 0\<rparr>)]"
    by (simp add: idle_started_def)
  let ?st = "idle_started\<lparr>tasks_data :=
      [(''task_1'', \<lparr>params = IDLE 1800, status = Running, progress = 0 + 5 * int 19\<rparr>)]\<rparr>"
  from sconst_calls [OF t0, of 5 19]
  have n19: "advance_n 19 (sconst 5) idle_started = (?st, sconst 5)"
    by simp
  have "tasks_data ?st = [(''task_1'', \<lparr>params = IDLE 1800, status = Running, progress = 95\<rparr>)]"
    by simp
  from sconst_step [OF this, of 5]
  have last: "advance_progress (sconst 5) ?st =
      (?st\<lparr>tasks_data := [(''task_1'',
          advance_task 5 \<lparr>params = IDLE 1800, status = Running, progress = 95\<rparr>)]\<rparr>, sconst 5)" .
  have "(20::nat) = Suc 19" by simp
  then have "advance_n 20 (sconst 5) idle_started =
      (case advance_n 19 (sconst 5) idle_started of (st', g') \<Rightarrow> advance_progress g' st')"
    by (simp only: advance_n_snoc)
  also have "\<dots> = advance_progress (sconst 5) ?st"
    by (simp only: n19 split_conv)
  finally show ?thesis
    unfolding idle_completed_def last
    by (simp add: advance_task_def Let_def idle_started_def)
qed

subsection \<open>Progress over time\<close>

lemma completed_stays:
  "i < length (tasks_data st) \<Longrightarrow> status (snd (tasks_data st ! i)) \<noteq> Running \<Longrightarrow>
   tasks_data (fst (advance_n n g st)) ! i = tasks_data st ! i"
proof (induction n arbitrary: g st)
  case 0
  then show ?case by simp
next
  case (Suc n)
  let ?st = "fst (advance_progress g st)" and ?g = "snd (advance_progress g st)"
  from progress_loop_nth [OF Suc.prems(1), of g] obtain r where
    "fst (progress_loop g (tasks_data st)) ! i =
      (fst (tasks_data st ! i),
       if status (snd (tasks_data st ! i)) = Running
       then advance_task r (snd (tasks_data st ! i)) else snd (tasks_data st ! i))"
    by blast
  with Suc.prems(2) have same: "tasks_data ?st ! i = tasks_data st ! i"
    by (simp add: advance_progress_tasks)
  have len: "i < length (tasks_data ?st)"
    using Suc.prems(1) by (simp add: advance_progress_tasks progress_loop_length)
  from Suc.prems(2) have "status (snd (tasks_data ?st ! i)) \<noteq> Running"
    by (simp add: same)
  from Suc.IH [OF len this, of ?g] show ?case
    by (simp add: case_prod_beta same)
qed

text \<open>
  C8 (as amended). With draws in \<open>{1..5}\<close>, a run of the progress loop never lowers the
  progress of a task whose progress is at most 100 (as it is in every ledger the
  program builds); a Running task whose progress reaches 100 in that run is Completed
  after it; and a Completed task is left exactly as it is by any number of runs of the
  progress loop, whatever they draw.
\<close>

theorem progress_monotone_completed_stays:
  assumes "\<forall>r \<in> sset g. 1 \<le> r \<and> r \<le> 5" and "i < length (tasks_data st)"
  shows "let t = snd (tasks_data st ! i);
             t' = snd (tasks_data (fst (advance_progress g st)) ! i)
         in (progress t \<le> 100 \<longrightarrow> progress t \<le> progress t') \<and>
            (status t = Running \<and> 100 \<le> progress t' \<longrightarrow> status t' = Completed) \<and>
            (status t = Completed \<longrightarrow>
               (\<forall>n g'. tasks_data (fst (advance_n n g' st)) ! i = tasks_data st ! i))"
proof -
  from progress_loop_nth [OF assms(2), of g] obtain r where
    r: "r \<in> sset g" and
    eq: "tasks_data (fst (advance_progress g st)) ! i =
      (fst (tasks_data st ! i),
       if status (snd (tasks_data st ! i)) = Running
       then advance_task r (snd (tasks_data st ! i)) else snd (tasks_data st ! i))"
    unfolding advance_progress_tasks by blast
  from r assms(1) have r1: "1 \<le> r" by auto
  have mono: "progress t \<le> 100 \<Longrightarrow> progress t \<le> progress (advance_task r t)" for t
    using r1 by (simp add: advance_task_def Let_def)
  have compl: "100 \<le> progress (advance_task r t) \<Longrightarrow> status (advance_task r t) = Completed" for t
    by (simp add: advance_task_def Let_def split: if_splits)
  have stays: "status (snd (tasks_data st ! i)) = Completed \<Longrightarrow>
      tasks_data (fst (advance_n n g' st)) ! i = tasks_data st ! i" for n g'
    using completed_stays [OF assms(2), of n g'] by simp
  show ?thesis
    unfolding Let_def eq using mono compl stays by simp
qed

theorem progress_monotone_completed_stays_witness:
  "progress (snd (tasks_data idle_started ! 0))
     \<le> progress (snd (tasks_data (fst (advance_progress (sconst 5) idle_started)) ! 0)) \<and>
   tasks_data (fst (advance_n 7 (sconst 5) idle_completed)) ! 0 =
     (''task_1'', \<lparr>params = IDLE 1800, status = Completed, progress = 100\<rparr>)"
proof -
  have h: "\<forall>r \<in> sset (sconst (5::int)). 1 \<le> r \<and> r \<le> 5"
    by simp
  have l1: "(0::nat) < length (tasks_data idle_started)"
    by (simp add: idle_started_def)
  have l2: "(0::nat) < length (tasks_data idle_completed)"
    by (simp add: idle_completed_value)
  from progress_monotone_completed_stays [OF h l1]
  have "progress (snd (tasks_data idle_started ! 0))
     \<le> progress (snd (tasks_data (fst (advance_progress (sconst 5) idle_started)) ! 0))"
    by (simp add: Let_def idle_started_def)
  moreover from progress_monotone_completed_stays [OF h l2]
  have "tasks_data (fst (advance_n 7 (sconst 5) idle_completed)) ! 0 =
     (''task_1'', \<lparr>params = IDLE 1800, status = Completed, progress = 100\<rparr>)"
    by (simp add: Let_def idle_completed_value)
  ultimately show ?thesis by simp
qed

text \<open>
  C8 as stated fails for \<^verbatim>\<open>start_task\<close>: the "Start" button of a Completed task at
  progress 100 sets its status back to Running.
\<close>

theorem start_task_reverts_completed_counterexample:
  "tasks_data idle_completed =
     [(''task_1'', \<lparr>params = IDLE 1800, status = Completed, progress = 100\<rparr>)] \<and>
   start_task ''task_1'' idle_completed =
     Inr (idle_completed
            \<lparr>tasks_data :=
               [(''task_1'', \<lparr>params = IDLE 1800, status = Running, progress = 100\<rparr>)]\<rparr>)"
  by (simp add: idle_completed_value start_task_def)

subsection \<open>Adding a task\<close>

lemma one_left_reached:
  "delete_task ''task_1''
     (add_task (IDLE 1800) (add_task (IDLE 1800) initialize_session_state)) = Inr one_left"
  by (simp add: delete_task_def add_task_def initialize_session_state_def one_left_def
      str_nat_Suc_0 str_nat_Suc_Suc_0 Let_def)

text \<open>
  C6, at a ledger reached after a deletion: two tasks added, \<open>task_1\<close> deleted. The
  ledger has size 1, so the next "Add Task" computes the id \<open>task_2\<close>, which is the key
  of the remaining task: the assignment replaces that task, and the size stays 1.
\<close>

theorem add_task_after_delete_overwrites:
  "delete_task ''task_1''
     (add_task (IDLE 1800) (add_task (IDLE 1800) initialize_session_state)) = Inr one_left \<and>
   length (tasks_data one_left) = 1 \<and>
   tasks_data (add_task (IDLE 60) one_left) =
     [(''task_2'', \<lparr>params = IDLE 60, status = Pending, progress = 0\<rparr>)] \<and>
   length (tasks_data (add_task (IDLE 60) one_left)) = 1"
proof -
  have len: "length (tasks_data one_left) = 1"
    by (simp add: one_left_def)
  have added: "tasks_data (add_task (IDLE 60) one_left) =
      [(''task_2'', \<lparr>params = IDLE 60, status = Pending, progress = 0\<rparr>)]"
    by (simp add: one_left_def add_task_def initialize_session_state_def str_nat_Suc_Suc_0
        Let_def)
  have len': "length (tasks_data (add_task (IDLE 60) one_left)) = 1"
    by (simp add: added)
  from one_left_reached len added len' show ?thesis
    by (intro conjI)
qed

text \<open>Where the computed id is not yet a key, the task is appended.\<close>

lemma add_task_fresh:
  assumes "''task_'' @ str_nat (length (tasks_data st) + 1) \<notin> fst ` set (tasks_data st)"
  shows "tasks_data (add_task p st) =
           tasks_data st @
           [(''task_'' @ str_nat (length (tasks_data st) + 1),
             \<lparr>params = p, status = Pending, progress = 0\<rparr>)]"
proof -
  have "k \<notin> fst ` set d \<Longrightarrow> dict_set k v d = d @ [(k, v)]" for k :: string and v :: task and d
    by (induction d) auto
  from this [OF assms] show ?thesis
    by (simp add: add_task_def Let_def)
qed

end
